theory Spec2Isabelle
  imports Main
begin

section \<open>Data model\<close>

text \<open>
  Documents of the four collections, after the Mongoose schemas. Object ids are natural
  numbers; arrays of ids are lists, in the order the array holds them. The timestamps
  \<open>createdAt\<close> and \<open>updatedAt\<close> and the text fields no handler below reads are left out.
\<close>

type_synonym user_id = nat
type_synonym question_id = nat
type_synonym answer_id = nat
type_synonym topic_id = nat

text \<open>
  Modelled from the spec: the schema of \<open>models/User\<close> is not among the sources. The fields
  are the ones the controllers and the hooks read and write on a user document.
\<close>

record user_doc =
  role :: string
  reputation :: int
  badges :: "string list"
  following :: "user_id list"
  followers :: "user_id list"
  followingTopics :: "topic_id list"
  answersCount :: int
  questionsCount :: int

text \<open>
  \<open>req.user\<close>: the user document of the caller together with its id. The middleware that
  sets it before a handler runs is not among the sources, so every handler below takes it
  as an argument, and nothing is assumed about how it relates to the store.
\<close>

record req_user = user_doc +
  uid :: user_id

text \<open>The fields \<open>questionSchema\<close> and \<open>answerSchema\<close> share.\<close>

record votable =
  author :: user_id
  upvotes :: "user_id list"
  downvotes :: "user_id list"

record question_doc = votable +
  views :: int
  question_answersCount :: int
  isAnswered :: bool
  featuredAnswer :: "answer_id option"

record answer_doc = votable +
  content :: string
  question :: question_id
  isAnonymous :: bool
  isFeatured :: bool

record topic_doc =
  topic_followers :: "user_id list"
  topic_questionsCount :: int

record db =
  users :: "user_id \<rightharpoonup> user_doc"
  questions :: "question_id \<rightharpoonup> question_doc"
  answers :: "answer_id \<rightharpoonup> answer_doc"
  topics :: "topic_id \<rightharpoonup> topic_doc"

text \<open>
  \<open>AppError message statusCode\<close> is what a handler passes to \<open>next\<close>; \<open>TypeError\<close> is the
  exception of reading a property of \<open>null\<close>, \<open>ValidationError\<close> the one of a failed schema
  validation, both caught by \<open>catchAsync\<close>.
\<close>

datatype error = AppError string nat | TypeError | ValidationError

type_synonym 'a response = "(error + 'a) \<times> db"

section \<open>Update operators of the store\<close>

definition addToSet :: "'a list \<Rightarrow> 'a \<Rightarrow> 'a list" where
  "addToSet xs x = (if x \<in> set xs then xs else xs @ [x])"

definition pull :: "'a list \<Rightarrow> 'a \<Rightarrow> 'a list" where
  "pull xs x = filter (\<lambda>y. y \<noteq> x) xs"

text \<open>
  \<open>Model.findByIdAndUpdate\<close> and \<open>Model.updateOne({_id: k}, ...)\<close>: the document with
  that id is changed, and nothing happens when there is none.
\<close>

definition User_update :: "db \<Rightarrow> user_id \<Rightarrow> (user_doc \<Rightarrow> user_doc) \<Rightarrow> db" where
  "User_update d k f =
     (case users d k of
        None \<Rightarrow> d
      | Some u \<Rightarrow> d\<lparr>users := (users d)(k \<mapsto> f u)\<rparr>)"

definition Question_update ::
    "db \<Rightarrow> question_id \<Rightarrow> (question_doc \<Rightarrow> question_doc) \<Rightarrow> db" where
  "Question_update d k f =
     (case questions d k of
        None \<Rightarrow> d
      | Some q \<Rightarrow> d\<lparr>questions := (questions d)(k \<mapsto> f q)\<rparr>)"

definition Topic_update :: "db \<Rightarrow> topic_id \<Rightarrow> (topic_doc \<Rightarrow> topic_doc) \<Rightarrow> db" where
  "Topic_update d k f =
     (case topics d k of
        None \<Rightarrow> d
      | Some t \<Rightarrow> d\<lparr>topics := (topics d)(k \<mapsto> f t)\<rparr>)"

text \<open>\<open>Answer.updateMany(filter, update)\<close>: every answer the filter selects is changed.\<close>

definition Answer_updateMany ::
    "db \<Rightarrow> (answer_id \<Rightarrow> answer_doc \<Rightarrow> bool) \<Rightarrow> (answer_doc \<Rightarrow> answer_doc) \<Rightarrow> db" where
  "Answer_updateMany d sel f =
     d\<lparr>answers := (\<lambda>k. case answers d k of
                           None \<Rightarrow> None
                         | Some a \<Rightarrow> if sel k a then Some (f a) else Some a)\<rparr>"

section \<open>Save hooks\<close>

text \<open>
  \<open>document.save()\<close> writes the document and then runs the schema's \<open>post('save')\<close> hook;
  the \<open>pre('save')\<close> hooks only set \<open>updatedAt\<close>.

  \<open>questionSchema.post('save')\<close>: the author's \<open>questionsCount\<close> goes up by one after
  every save of a question document.
\<close>

definition questionSchema_post_save :: "db \<Rightarrow> question_doc \<Rightarrow> db" where
  "questionSchema_post_save d doc =
     User_update d (author doc) (\<lambda>u. u\<lparr>questionsCount := questionsCount u + 1\<rparr>)"

definition Question_save :: "db \<Rightarrow> question_id \<Rightarrow> question_doc \<Rightarrow> db" where
  "Question_save d k doc =
     questionSchema_post_save (d\<lparr>questions := (questions d)(k \<mapsto> doc)\<rparr>) doc"

text \<open>
  \<open>answerSchema.post('save')\<close>: after every save of an answer document the question's
  \<open>answersCount\<close> goes up by one, and the author's \<open>answersCount\<close> by one and
  \<open>reputation\<close> by five.
\<close>

definition answerSchema_post_save :: "db \<Rightarrow> answer_doc \<Rightarrow> db" where
  "answerSchema_post_save d doc =
     (let d1 = Question_update d (question doc)
                 (\<lambda>q. q\<lparr>question_answersCount := question_answersCount q + 1\<rparr>)
      in User_update d1 (author doc)
           (\<lambda>u. u\<lparr>answersCount := answersCount u + 1, reputation := reputation u + 5\<rparr>))"

definition Answer_save :: "db \<Rightarrow> answer_id \<Rightarrow> answer_doc \<Rightarrow> db" where
  "Answer_save d k doc =
     answerSchema_post_save (d\<lparr>answers := (answers d)(k \<mapsto> doc)\<rparr>) doc"

section \<open>Question controller: votes\<close>

text \<open>
  \<open>upvoteQuestion\<close> and \<open>downvoteQuestion\<close>, in the second half of
  \<open>controllers/userController.js\<close>. A handler takes the store, \<open>req.user\<close> and the id
  in the route, and returns what it answers (the error passed to \<open>next\<close>, or the document
  of the response) together with the store it leaves.
\<close>

definition upvoteQuestion ::
    "db \<Rightarrow> req_user \<Rightarrow> question_id \<Rightarrow> question_doc response" where
  "upvoteQuestion d ru qid =
     (case questions d qid of
        None \<Rightarrow> (Inl (AppError ''No question found with that ID'' 404), d)
      | Some q \<Rightarrow>
          if uid ru \<in> set (upvotes q)
          then (Inl (AppError ''Question already upvoted'' 400), d)
          else
            let q1 = q\<lparr>downvotes := filter (\<lambda>v. v \<noteq> uid ru) (downvotes q)\<rparr>;
                q2 = q1\<lparr>upvotes := upvotes q1 @ [uid ru]\<rparr>;
                d1 = Question_save d qid q2;
                d2 = User_update d1 (author q2) (\<lambda>u. u\<lparr>reputation := reputation u + 10\<rparr>)
            in (Inr q2, d2))"

definition downvoteQuestion ::
    "db \<Rightarrow> req_user \<Rightarrow> question_id \<Rightarrow> question_doc response" where
  "downvoteQuestion d ru qid =
     (case questions d qid of
        None \<Rightarrow> (Inl (AppError ''No question found with that ID'' 404), d)
      | Some q \<Rightarrow>
          if uid ru \<in> set (downvotes q)
          then (Inl (AppError ''Question already downvoted'' 400), d)
          else
            let q1 = q\<lparr>upvotes := filter (\<lambda>v. v \<noteq> uid ru) (upvotes q)\<rparr>;
                q2 = q1\<lparr>downvotes := downvotes q1 @ [uid ru]\<rparr>;
                d1 = Question_save d qid q2;
                d2 = User_update d1 (author q2) (\<lambda>u. u\<lparr>reputation := reputation u - 2\<rparr>)
            in (Inr q2, d2))"

section \<open>Answer controller: votes and featuring\<close>

text \<open>\<open>upvoteAnswer\<close>, \<open>downvoteAnswer\<close>, \<open>featureAnswer\<close> and \<open>createAnswer\<close> of the answer controller.\<close>

definition upvoteAnswer :: "db \<Rightarrow> req_user \<Rightarrow> answer_id \<Rightarrow> answer_doc response" where
  "upvoteAnswer d ru aid =
     (case answers d aid of
        None \<Rightarrow> (Inl (AppError ''No answer found with that ID'' 404), d)
      | Some a \<Rightarrow>
          if uid ru \<in> set (upvotes a)
          then (Inl (AppError ''Answer already upvoted'' 400), d)
          else
            let a1 = a\<lparr>downvotes := filter (\<lambda>v. v \<noteq> uid ru) (downvotes a)\<rparr>;
                a2 = a1\<lparr>upvotes := upvotes a1 @ [uid ru]\<rparr>;
                d1 = Answer_save d aid a2;
                d2 = User_update d1 (author a2) (\<lambda>u. u\<lparr>reputation := reputation u + 15\<rparr>)
            in (Inr a2, d2))"

definition downvoteAnswer :: "db \<Rightarrow> req_user \<Rightarrow> answer_id \<Rightarrow> answer_doc response" where
  "downvoteAnswer d ru aid =
     (case answers d aid of
        None \<Rightarrow> (Inl (AppError ''No answer found with that ID'' 404), d)
      | Some a \<Rightarrow>
          if uid ru \<in> set (downvotes a)
          then (Inl (AppError ''Answer already downvoted'' 400), d)
          else
            let a1 = a\<lparr>upvotes := filter (\<lambda>v. v \<noteq> uid ru) (upvotes a)\<rparr>;
                a2 = a1\<lparr>downvotes := downvotes a1 @ [uid ru]\<rparr>;
                d1 = Answer_save d aid a2;
                d2 = User_update d1 (author a2) (\<lambda>u. u\<lparr>reputation := reputation u - 5\<rparr>)
            in (Inr a2, d2))"

text \<open>
  \<open>featureAnswer\<close> loads the answer with its question populated. A question that is gone
  populates as \<open>null\<close>, and reading its author throws before the role is looked at.
\<close>

definition featureAnswer :: "db \<Rightarrow> req_user \<Rightarrow> answer_id \<Rightarrow> answer_doc response" where
  "featureAnswer d ru aid =
     (case answers d aid of
        None \<Rightarrow> (Inl (AppError ''No answer found with that ID'' 404), d)
      | Some a \<Rightarrow>
          (case questions d (question a) of
             None \<Rightarrow> (Inl TypeError, d)
           | Some q \<Rightarrow>
               if author q \<noteq> uid ru \<and> role ru \<noteq> ''admin''
               then (Inl (AppError ''You are not authorized to feature this answer'' 401), d)
               else
                 let d1 = Answer_updateMany d
                            (\<lambda>k b. question b = question a \<and> k \<noteq> aid)
                            (\<lambda>b. b\<lparr>isFeatured := False\<rparr>);
                     a1 = a\<lparr>isFeatured := True\<rparr>;
                     d2 = Answer_save d1 aid a1;
                     d3 = Question_update d2 (question a)
                            (\<lambda>q. q\<lparr>featuredAnswer := Some aid, isAnswered := True\<rparr>);
                     d4 = User_update d3 (author a1)
                            (\<lambda>u. u\<lparr>reputation := reputation u + 50,
                                    badges := addToSet (badges u) ''featured-answer''\<rparr>)
                 in (Inr a1, d4)))"

text \<open>
  \<open>createAnswer\<close>: \<open>req.body\<close> is handed to \<open>Answer.create\<close> with the caller as author,
  so it supplies every other field of the new document. \<open>new_id\<close> is the object id the
  store gives the new document. The schema requires a non-empty \<open>content\<close>.
\<close>

definition createAnswer ::
    "db \<Rightarrow> req_user \<Rightarrow> answer_id \<Rightarrow> answer_doc \<Rightarrow> answer_doc response" where
  "createAnswer d ru new_id body =
     (let body1 = body\<lparr>author := uid ru\<rparr>
      in case questions d (question body1) of
           None \<Rightarrow> (Inl (AppError ''No question found with that ID'' 404), d)
         | Some q \<Rightarrow>
             if content body1 = []
             then (Inl ValidationError, d)
             else (Inr body1, Answer_save d new_id body1))"

section \<open>User controller: following topics and users\<close>

text \<open>
  \<open>followTopic\<close>, \<open>unfollowTopic\<close>, \<open>followUser\<close> and \<open>unfollowUser\<close> of
  \<open>controllers/userController.js\<close>. The membership tests read the lists of \<open>req.user\<close>;
  the updates go to the documents in the store.
\<close>

definition followTopic :: "db \<Rightarrow> req_user \<Rightarrow> topic_id \<Rightarrow> string response" where
  "followTopic d ru topicId =
     (case topics d topicId of
        None \<Rightarrow> (Inl (AppError ''No topic found with that ID'' 404), d)
      | Some topic \<Rightarrow>
          if topicId \<in> set (followingTopics ru)
          then (Inl (AppError ''You already follow this topic'' 400), d)
          else
            let d1 = User_update d (uid ru)
                       (\<lambda>u. u\<lparr>followingTopics := addToSet (followingTopics u) topicId\<rparr>);
                d2 = Topic_update d1 topicId
                       (\<lambda>t. t\<lparr>topic_followers := addToSet (topic_followers t) (uid ru)\<rparr>)
            in (Inr ''Topic followed successfully'', d2))"

definition unfollowTopic :: "db \<Rightarrow> req_user \<Rightarrow> topic_id \<Rightarrow> string response" where
  "unfollowTopic d ru topicId =
     (case topics d topicId of
        None \<Rightarrow> (Inl (AppError ''No topic found with that ID'' 404), d)
      | Some topic \<Rightarrow>
          if topicId \<notin> set (followingTopics ru)
          then (Inl (AppError ''You do not follow this topic'' 400), d)
          else
            let d1 = User_update d (uid ru)
                       (\<lambda>u. u\<lparr>followingTopics := pull (followingTopics u) topicId\<rparr>);
                d2 = Topic_update d1 topicId
                       (\<lambda>t. t\<lparr>topic_followers := pull (topic_followers t) (uid ru)\<rparr>)
            in (Inr ''Topic unfollowed successfully'', d2))"

definition followUser :: "db \<Rightarrow> req_user \<Rightarrow> user_id \<Rightarrow> string response" where
  "followUser d ru userId =
     (if uid ru = userId
      then (Inl (AppError ''You cannot follow yourself'' 400), d)
      else
        case users d userId of
          None \<Rightarrow> (Inl (AppError ''No user found with that ID'' 404), d)
        | Some userToFollow \<Rightarrow>
            if userId \<in> set (following ru)
            then (Inl (AppError ''You already follow this user'' 400), d)
            else
              let d1 = User_update d (uid ru)
                         (\<lambda>u. u\<lparr>following := addToSet (following u) userId\<rparr>);
                  d2 = User_update d1 userId
                         (\<lambda>u. u\<lparr>followers := addToSet (followers u) (uid ru)\<rparr>)
              in (Inr ''User followed successfully'', d2))"

definition unfollowUser :: "db \<Rightarrow> req_user \<Rightarrow> user_id \<Rightarrow> string response" where
  "unfollowUser d ru userId =
     (if uid ru = userId
      then (Inl (AppError ''You cannot unfollow yourself'' 400), d)
      else
        case users d userId of
          None \<Rightarrow> (Inl (AppError ''No user found with that ID'' 404), d)
        | Some userToUnfollow \<Rightarrow>
            if userId \<notin> set (following ru)
            then (Inl (AppError ''You do not follow this user'' 400), d)
            else
              let d1 = User_update d (uid ru)
                         (\<lambda>u. u\<lparr>following := pull (following u) userId\<rparr>);
                  d2 = User_update d1 userId
                         (\<lambda>u. u\<lparr>followers := pull (followers u) (uid ru)\<rparr>)
              in (Inr ''User unfollowed successfully'', d2))"

section \<open>Sequences of requests\<close>

text \<open>
  A request is one call of a handler by a caller; a failed request leaves the store as the
  handler left it and the next request is served all the same.
\<close>

datatype request =
    UpvoteQuestion question_id
  | DownvoteQuestion question_id
  | UpvoteAnswer answer_id
  | DownvoteAnswer answer_id
  | FeatureAnswer answer_id
  | FollowTopic topic_id
  | UnfollowTopic topic_id
  | FollowUser user_id
  | UnfollowUser user_id

fun serve :: "db \<Rightarrow> req_user \<times> request \<Rightarrow> db" where
  "serve d (ru, UpvoteQuestion k) = snd (upvoteQuestion d ru k)"
| "serve d (ru, DownvoteQuestion k) = snd (downvoteQuestion d ru k)"
| "serve d (ru, UpvoteAnswer k) = snd (upvoteAnswer d ru k)"
| "serve d (ru, DownvoteAnswer k) = snd (downvoteAnswer d ru k)"
| "serve d (ru, FeatureAnswer k) = snd (featureAnswer d ru k)"
| "serve d (ru, FollowTopic k) = snd (followTopic d ru k)"
| "serve d (ru, UnfollowTopic k) = snd (unfollowTopic d ru k)"
| "serve d (ru, FollowUser k) = snd (followUser d ru k)"
| "serve d (ru, UnfollowUser k) = snd (unfollowUser d ru k)"

fun serve_all :: "db \<Rightarrow> (req_user \<times> request) list \<Rightarrow> db" where
  "serve_all d [] = d"
| "serve_all d (r # rs) = serve_all (serve d r) rs"

text \<open>No user is in both vote sets of a question or an answer.\<close>

definition mutually_exclusive :: "'a votable_scheme \<Rightarrow> bool" where
  "mutually_exclusive v \<longleftrightarrow> set (upvotes v) \<inter> set (downvotes v) = {}"

text \<open>The two mirrored relations of the follow graph, over the documents that exist.\<close>

definition follow_symmetric :: "db \<Rightarrow> bool" where
  "follow_symmetric d \<longleftrightarrow>
     (\<forall>a b ua ub. users d a = Some ua \<and> users d b = Some ub \<longrightarrow>
        (b \<in> set (following ua) \<longleftrightarrow> a \<in> set (followers ub)))"

definition topic_follow_symmetric :: "db \<Rightarrow> bool" where
  "topic_follow_symmetric d \<longleftrightarrow>
     (\<forall>a t ua tt. users d a = Some ua \<and> topics d t = Some tt \<longrightarrow>
        (t \<in> set (followingTopics ua) \<longleftrightarrow> a \<in> set (topic_followers tt)))"

section \<open>Socket events\<close>

text \<open>
  The registry of the socket server: for each room, the sockets that have joined it. A
  room is named by a question id. The payload of \<open>newAnswer\<close> is whatever the client sent.
  The handlers are those of \<open>socket.js\<close>; the one for \<open>disconnect\<close> only logs and is left
  out.
\<close>

type_synonym socket_id = nat
type_synonym rooms = "question_id \<Rightarrow> socket_id set"

datatype client_event =
    joinQuestion question_id
  | leaveQuestion question_id
  | newAnswer question_id string
  | answerUpvoted question_id answer_id
  | answerDownvoted question_id answer_id
  | answerFeatured question_id answer_id

datatype server_event =
    emit_answerAdded string
  | emit_answerUpdated answer_id string
  | emit_answerFeatured answer_id

text \<open>
  \<open>socket.to(room).emit(event)\<close>: the event goes to the sockets in the room, the socket
  that emits excluded. The result is the set of deliveries (receiver, event).
\<close>

definition socket_to_emit ::
    "rooms \<Rightarrow> socket_id \<Rightarrow> question_id \<Rightarrow> server_event \<Rightarrow> (socket_id \<times> server_event) set" where
  "socket_to_emit rs socket room ev = (\<lambda>c. (c, ev)) ` (rs room - {socket})"

fun on_event ::
    "rooms \<Rightarrow> socket_id \<Rightarrow> client_event \<Rightarrow> rooms \<times> (socket_id \<times> server_event) set" where
  "on_event rs socket (joinQuestion questionId) =
     (rs(questionId := insert socket (rs questionId)), {})"
| "on_event rs socket (leaveQuestion questionId) =
     (rs(questionId := rs questionId - {socket}), {})"
| "on_event rs socket (newAnswer questionId answer) =
     (rs, socket_to_emit rs socket questionId (emit_answerAdded answer))"
| "on_event rs socket (answerUpvoted questionId answerId) =
     (rs, socket_to_emit rs socket questionId (emit_answerUpdated answerId ''upvote''))"
| "on_event rs socket (answerDownvoted questionId answerId) =
     (rs, socket_to_emit rs socket questionId (emit_answerUpdated answerId ''downvote''))"
| "on_event rs socket (answerFeatured questionId answerId) =
     (rs, socket_to_emit rs socket questionId (emit_answerFeatured answerId))"

text \<open>The room an event is published to, and the receivers of a set of deliveries.\<close>

fun published_room :: "client_event \<Rightarrow> question_id option" where
  "published_room (joinQuestion q) = None"
| "published_room (leaveQuestion q) = None"
| "published_room (newAnswer q a) = Some q"
| "published_room (answerUpvoted q a) = Some q"
| "published_room (answerDownvoted q a) = Some q"
| "published_room (answerFeatured q a) = Some q"

definition receivers :: "(socket_id \<times> server_event) set \<Rightarrow> socket_id set" where
  "receivers ds = fst ` ds"

section \<open>Observations used in the statements\<close>

definition reputation_of :: "db \<Rightarrow> user_id \<Rightarrow> int option" where
  "reputation_of d k = map_option reputation (users d k)"

definition badges_of :: "db \<Rightarrow> user_id \<Rightarrow> string list option" where
  "badges_of d k = map_option badges (users d k)"

definition user_answersCount_of :: "db \<Rightarrow> user_id \<Rightarrow> int option" where
  "user_answersCount_of d k = map_option answersCount (users d k)"

definition question_answersCount_of :: "db \<Rightarrow> question_id \<Rightarrow> int option" where
  "question_answersCount_of d k = map_option question_answersCount (questions d k)"

text \<open>
  What a save of the answer document \<open>a\<close> does to the counters, from the store \<open>d\<close>
  before the request to the store \<open>d'\<close> after it: one more on the question of \<open>a\<close> and
  one more on the author of \<open>a\<close>, where these documents exist.
\<close>

definition counts_bumped :: "db \<Rightarrow> answer_doc \<Rightarrow> db \<Rightarrow> bool" where
  "counts_bumped d a d' \<longleftrightarrow>
     question_answersCount_of d' (question a) =
       map_option (\<lambda>n. n + 1) (question_answersCount_of d (question a)) \<and>
     user_answersCount_of d' (author a) =
       map_option (\<lambda>n. n + 1) (user_answersCount_of d (author a))"

section \<open>Example data\<close>

definition demo_user :: user_doc where
  "demo_user =
     \<lparr>role = ''user'', reputation = 0, badges = [], following = [], followers = [],
      followingTopics = [], answersCount = 0, questionsCount = 0\<rparr>"

definition demo_req :: "user_id \<Rightarrow> req_user" where
  "demo_req k =
     \<lparr>role = ''user'', reputation = 0, badges = [], following = [], followers = [],
      followingTopics = [], answersCount = 0, questionsCount = 0, uid = k\<rparr>"

definition demo_question :: "user_id list \<Rightarrow> user_id list \<Rightarrow> question_doc" where
  "demo_question ups downs =
     \<lparr>author = 1, upvotes = ups, downvotes = downs, views = 0, question_answersCount = 2,
      isAnswered = False, featuredAnswer = None\<rparr>"

definition demo_answer :: "user_id \<Rightarrow> user_id list \<Rightarrow> user_id list \<Rightarrow> answer_doc" where
  "demo_answer w ups downs =
     \<lparr>author = w, upvotes = ups, downvotes = downs, content = ''an answer'', question = 10,
      isAnonymous = False, isFeatured = False\<rparr>"

text \<open>
  Users 1, 2 and 3, each with reputation 0. Question 10, asked by user 1, upvoted by user 2
  and downvoted by user 3; question 11 without votes. Answers 20 (by user 2, upvoted by
  user 1, downvoted by user 3) and 21 (by user 3, without votes), both to question 10.
  Topic 30. Nobody follows anything.
\<close>

definition demo_db :: db where
  "demo_db =
     \<lparr>users = [1 \<mapsto> demo_user, 2 \<mapsto> demo_user, 3 \<mapsto> demo_user],
      questions = [10 \<mapsto> demo_question [2] [3], 11 \<mapsto> demo_question [] []],
      answers = [20 \<mapsto> demo_answer 2 [1] [3], 21 \<mapsto> demo_answer 3 [] []],
      topics = [30 \<mapsto> \<lparr>topic_followers = [], topic_questionsCount = 0\<rparr>]\<rparr>"

text \<open>
  Votes on question 11 and on answer 21, whose vote sets are empty in the example store,
  with reversals and a repeated vote among them.
\<close>

definition demo_votes :: "(req_user \<times> request) list" where
  "demo_votes =
     [(demo_req 2, UpvoteQuestion 11), (demo_req 2, DownvoteQuestion 11),
      (demo_req 3, UpvoteAnswer 21), (demo_req 2, UpvoteAnswer 21),
      (demo_req 3, DownvoteAnswer 21), (demo_req 3, DownvoteAnswer 21)]"

text \<open>
  User 1 follows user 2 and topic 30, user 3 follows user 2, and user 1, whose document
  now lists user 2 and topic 30, unfollows both.
\<close>

definition demo_follows :: "(req_user \<times> request) list" where
  "demo_follows =
     [(demo_req 1, FollowUser 2), (demo_req 1, FollowTopic 30), (demo_req 3, FollowUser 2),
      ((demo_req 1)\<lparr>following := [2], followingTopics := [30]\<rparr>, UnfollowUser 2),
      ((demo_req 1)\<lparr>following := [2], followingTopics := [30]\<rparr>, UnfollowTopic 30)]"

text \<open>
  User 1, who asked question 10, features answer 20; from there, either features answer
  21, or features answer 20 once more.
\<close>

definition demo_featured_20 :: db where
  "demo_featured_20 = snd (featureAnswer demo_db (demo_req 1) 20)"

definition demo_featured_21 :: db where
  "demo_featured_21 = snd (featureAnswer demo_featured_20 (demo_req 1) 21)"

definition demo_featured_20_again :: db where
  "demo_featured_20_again = snd (featureAnswer demo_featured_20 (demo_req 1) 20)"

text \<open>Room 10 with the sockets 1 and 2 in it; every other room is empty.\<close>

definition demo_rooms :: rooms where
  "demo_rooms = (\<lambda>_. {})(10 := {1, 2})"

section \<open>The store after an update\<close>

lemma set_addToSet [simp]: "set (addToSet xs x) = insert x (set xs)"
  by (auto simp: addToSet_def)

lemma set_pull [simp]: "set (pull xs x) = set xs - {x}"
  by (auto simp: pull_def)

lemma users_User_update [simp]:
  "users (User_update d k f) x = (if x = k then map_option f (users d k) else users d x)"
  by (simp add: User_update_def split: option.splits)

lemma others_User_update [simp]:
  "questions (User_update d k f) = questions d"
  "answers (User_update d k f) = answers d"
  "topics (User_update d k f) = topics d"
  by (simp_all add: User_update_def split: option.splits)

lemma questions_Question_update [simp]:
  "questions (Question_update d k f) x = (if x = k then map_option f (questions d k) else questions d x)"
  by (simp add: Question_update_def split: option.splits)

lemma others_Question_update [simp]:
  "users (Question_update d k f) = users d"
  "answers (Question_update d k f) = answers d"
  "topics (Question_update d k f) = topics d"
  by (simp_all add: Question_update_def split: option.splits)

lemma topics_Topic_update [simp]:
  "topics (Topic_update d k f) x = (if x = k then map_option f (topics d k) else topics d x)"
  by (simp add: Topic_update_def split: option.splits)

lemma others_Topic_update [simp]:
  "users (Topic_update d k f) = users d"
  "answers (Topic_update d k f) = answers d"
  "questions (Topic_update d k f) = questions d"
  by (simp_all add: Topic_update_def split: option.splits)

lemma answers_Answer_updateMany [simp]:
  "answers (Answer_updateMany d sel f) x =
     map_option (\<lambda>a. if sel x a then f a else a) (answers d x)"
  by (simp add: Answer_updateMany_def split: option.splits)

lemma others_Answer_updateMany [simp]:
  "users (Answer_updateMany d sel f) = users d"
  "questions (Answer_updateMany d sel f) = questions d"
  "topics (Answer_updateMany d sel f) = topics d"
  by (simp_all add: Answer_updateMany_def)

lemma Question_save_lookups [simp]:
  "questions (Question_save d k doc) x = (if x = k then Some doc else questions d x)"
  "users (Question_save d k doc) x =
     (if x = author doc
      then map_option (\<lambda>u. u\<lparr>questionsCount := questionsCount u + 1\<rparr>) (users d x)
      else users d x)"
  "answers (Question_save d k doc) = answers d"
  "topics (Question_save d k doc) = topics d"
  by (simp_all add: Question_save_def questionSchema_post_save_def)

lemma Answer_save_lookups [simp]:
  "answers (Answer_save d k doc) x = (if x = k then Some doc else answers d x)"
  "questions (Answer_save d k doc) x =
     (if x = question doc
      then map_option (\<lambda>q. q\<lparr>question_answersCount := question_answersCount q + 1\<rparr>)
             (questions d x)
      else questions d x)"
  "users (Answer_save d k doc) x =
     (if x = author doc
      then map_option (\<lambda>u. u\<lparr>answersCount := answersCount u + 1,
                              reputation := reputation u + 5\<rparr>) (users d x)
      else users d x)"
  "topics (Answer_save d k doc) = topics d"
  by (simp_all add: Answer_save_def answerSchema_post_save_def Let_def)

section \<open>Votes on questions and answers\<close>

text \<open>
  Claim C1, as the code has it. A user in the downvoters of a question whose upvote
  succeeds leaves the downvoters, joins the upvoters, and the author's reputation changes
  by +10, the delta of any upvote; a user in the upvoters whose downvote succeeds leaves
  the upvoters, joins the downvoters, and the author's reputation changes by -2, the delta
  of any downvote. The handler adds no reversal of the earlier vote's delta.
\<close>

theorem question_vote_reversal_flat_delta:
  assumes "questions d qid = Some q" and "reputation_of d (author q) = Some r"
  shows "(uid ru \<in> set (downvotes q) \<and> upvoteQuestion d ru qid = (Inr q', d') \<longrightarrow>
            questions d' qid = Some q' \<and> uid ru \<notin> set (downvotes q') \<and>
            uid ru \<in> set (upvotes q') \<and> reputation_of d' (author q) = Some (r + 10)) \<and>
         (uid ru \<in> set (upvotes q) \<and> downvoteQuestion d ru qid = (Inr q', d') \<longrightarrow>
            questions d' qid = Some q' \<and> uid ru \<notin> set (upvotes q') \<and>
            uid ru \<in> set (downvotes q') \<and> reputation_of d' (author q) = Some (r - 2))"
  using assms
  by (auto simp: upvoteQuestion_def downvoteQuestion_def reputation_of_def Let_def
           split: if_splits)

text \<open>
  On the example store user 3, a downvoter of question 10, upvotes it, and user 2, an
  upvoter, downvotes it; the author is user 1.
\<close>

theorem question_vote_reversal_flat_delta_witness:
  "questions demo_db 10 = Some (demo_question [2] [3]) \<and>
   reputation_of demo_db 1 = Some 0 \<and>
   uid (demo_req 3) \<in> set (downvotes (demo_question [2] [3])) \<and>
   fst (upvoteQuestion demo_db (demo_req 3) 10) = Inr (demo_question [2, 3] []) \<and>
   reputation_of (snd (upvoteQuestion demo_db (demo_req 3) 10)) 1 = Some 10 \<and>
   uid (demo_req 2) \<in> set (upvotes (demo_question [2] [3])) \<and>
   fst (downvoteQuestion demo_db (demo_req 2) 10) = Inr (demo_question [] [3, 2]) \<and>
   reputation_of (snd (downvoteQuestion demo_db (demo_req 2) 10)) 1 = Some (- 2)"
  using question_vote_reversal_flat_delta [of demo_db 10 "demo_question [2] [3]" 0
          "demo_req 3" "demo_question [2, 3] []"
          "snd (upvoteQuestion demo_db (demo_req 3) 10)"]
        question_vote_reversal_flat_delta [of demo_db 10 "demo_question [2] [3]" 0
          "demo_req 2" "demo_question [] [3, 2]"
          "snd (downvoteQuestion demo_db (demo_req 2) 10)"]
  by (simp add: prod_eq_iff upvoteQuestion_def downvoteQuestion_def demo_db_def
        demo_question_def demo_req_def demo_user_def reputation_of_def Let_def)

text \<open>
  Claim C1 as stated asks for +12 on a reversal from downvote to upvote. On the example
  store the author of question 10 has reputation 0 before user 3 reverses the downvote, and
  not 12 after.
\<close>

theorem question_reversal_plus_12_counterexample:
  "questions demo_db 10 = Some (demo_question [2] [3]) \<and>
   author (demo_question [2] [3]) = 1 \<and>
   uid (demo_req 3) \<in> set (downvotes (demo_question [2] [3])) \<and>
   fst (upvoteQuestion demo_db (demo_req 3) 10) = Inr (demo_question [2, 3] []) \<and>
   reputation_of demo_db 1 = Some 0 \<and>
   reputation_of (snd (upvoteQuestion demo_db (demo_req 3) 10)) 1 = Some (0 + 10) \<and>
   reputation_of (snd (upvoteQuestion demo_db (demo_req 3) 10)) 1 \<noteq> Some (0 + 12)"
  by (simp add: upvoteQuestion_def demo_db_def
        demo_question_def demo_req_def demo_user_def reputation_of_def Let_def)

text \<open>
  Claim C3. A vote in the direction the caller has already voted is answered with the
  error "already upvoted" or "already downvoted" (status 400, the conflict of the spec), and
  the store after the request is the store before it: no vote set and no reputation has
  changed. This holds for questions and for answers, in both directions.
\<close>

theorem repeated_vote_conflict:
  "(questions d k = Some q \<and> uid ru \<in> set (upvotes q) \<longrightarrow>
      upvoteQuestion d ru k = (Inl (AppError ''Question already upvoted'' 400), d)) \<and>
   (questions d k = Some q \<and> uid ru \<in> set (downvotes q) \<longrightarrow>
      downvoteQuestion d ru k = (Inl (AppError ''Question already downvoted'' 400), d)) \<and>
   (answers d k = Some a \<and> uid ru \<in> set (upvotes a) \<longrightarrow>
      upvoteAnswer d ru k = (Inl (AppError ''Answer already upvoted'' 400), d)) \<and>
   (answers d k = Some a \<and> uid ru \<in> set (downvotes a) \<longrightarrow>
      downvoteAnswer d ru k = (Inl (AppError ''Answer already downvoted'' 400), d))"
  by (simp add: upvoteQuestion_def downvoteQuestion_def upvoteAnswer_def downvoteAnswer_def)

text \<open>
  On the example store: user 2 has upvoted and user 3 has downvoted question 10, user 1
  has upvoted and user 3 has downvoted answer 20; each votes the same way once more.
\<close>

theorem repeated_vote_conflict_witness:
  "questions demo_db 10 = Some (demo_question [2] [3]) \<and>
   uid (demo_req 2) \<in> set (upvotes (demo_question [2] [3])) \<and>
   upvoteQuestion demo_db (demo_req 2) 10 =
     (Inl (AppError ''Question already upvoted'' 400), demo_db) \<and>
   uid (demo_req 3) \<in> set (downvotes (demo_question [2] [3])) \<and>
   downvoteQuestion demo_db (demo_req 3) 10 =
     (Inl (AppError ''Question already downvoted'' 400), demo_db) \<and>
   answers demo_db 20 = Some (demo_answer 2 [1] [3]) \<and>
   uid (demo_req 1) \<in> set (upvotes (demo_answer 2 [1] [3])) \<and>
   upvoteAnswer demo_db (demo_req 1) 20 =
     (Inl (AppError ''Answer already upvoted'' 400), demo_db) \<and>
   uid (demo_req 3) \<in> set (downvotes (demo_answer 2 [1] [3])) \<and>
   downvoteAnswer demo_db (demo_req 3) 20 =
     (Inl (AppError ''Answer already downvoted'' 400), demo_db)"
proof -
  have q: "questions demo_db 10 = Some (demo_question [2] [3])"
    and a: "answers demo_db 20 = Some (demo_answer 2 [1] [3])"
    by (simp_all add: demo_db_def)
  have m: "uid (demo_req 2) \<in> set (upvotes (demo_question [2] [3]))"
    "uid (demo_req 3) \<in> set (downvotes (demo_question [2] [3]))"
    "uid (demo_req 1) \<in> set (upvotes (demo_answer 2 [1] [3]))"
    "uid (demo_req 3) \<in> set (downvotes (demo_answer 2 [1] [3]))"
    by (simp_all add: demo_req_def demo_question_def demo_answer_def)
  have c1: "upvoteQuestion demo_db (demo_req 2) 10 =
      (Inl (AppError ''Question already upvoted'' 400), demo_db)"
    using repeated_vote_conflict [of demo_db 10 "demo_question [2] [3]" "demo_req 2"] q m(1)
    by blast
  have c2: "downvoteQuestion demo_db (demo_req 3) 10 =
      (Inl (AppError ''Question already downvoted'' 400), demo_db)"
    using repeated_vote_conflict [of demo_db 10 "demo_question [2] [3]" "demo_req 3"] q m(2)
    by blast
  have c3: "upvoteAnswer demo_db (demo_req 1) 20 =
      (Inl (AppError ''Answer already upvoted'' 400), demo_db)"
    using repeated_vote_conflict [of demo_db 20 _ "demo_req 1" "demo_answer 2 [1] [3]"] a m(3)
    by blast
  have c4: "downvoteAnswer demo_db (demo_req 3) 20 =
      (Inl (AppError ''Answer already downvoted'' 400), demo_db)"
    using repeated_vote_conflict [of demo_db 20 _ "demo_req 3" "demo_answer 2 [1] [3]"] a m(4)
    by blast
  show ?thesis
    by (intro conjI q a m c1 c2 c3 c4)
qed

subsection \<open>Mutual exclusion of the vote sets\<close>

lemma serve_question_exclusive:
  assumes "questions d k = Some q" and "mutually_exclusive q"
  shows "\<exists>q'. questions (serve d r) k = Some q' \<and> mutually_exclusive q'"
proof (cases r)
  case (Pair ru rq)
  show ?thesis
  proof (cases rq)
    case (UpvoteQuestion x)
    with Pair assms show ?thesis
      by (auto simp: upvoteQuestion_def mutually_exclusive_def Let_def split: option.splits)
  next
    case (DownvoteQuestion x)
    with Pair assms show ?thesis
      by (auto simp: downvoteQuestion_def mutually_exclusive_def Let_def split: option.splits)
  next
    case (UpvoteAnswer x)
    with Pair assms show ?thesis
      by (auto simp: upvoteAnswer_def mutually_exclusive_def Let_def split: option.splits)
  next
    case (DownvoteAnswer x)
    with Pair assms show ?thesis
      by (auto simp: downvoteAnswer_def mutually_exclusive_def Let_def split: option.splits)
  next
    case (FeatureAnswer x)
    with Pair assms show ?thesis
      by (auto simp: featureAnswer_def mutually_exclusive_def Let_def split: option.splits)
  next
    case (FollowTopic x)
    with Pair assms show ?thesis
      by (auto simp: followTopic_def Let_def split: option.splits)
  next
    case (UnfollowTopic x)
    with Pair assms show ?thesis
      by (auto simp: unfollowTopic_def Let_def split: option.splits)
  next
    case (FollowUser x)
    with Pair assms show ?thesis
      by (auto simp: followUser_def Let_def split: option.splits)
  next
    case (UnfollowUser x)
    with Pair assms show ?thesis
      by (auto simp: unfollowUser_def Let_def split: option.splits)
  qed
qed

lemma serve_answer_exclusive:
  assumes "answers d k = Some a" and "mutually_exclusive a"
  shows "\<exists>a'. answers (serve d r) k = Some a' \<and> mutually_exclusive a'"
proof (cases r)
  case (Pair ru rq)
  show ?thesis
  proof (cases rq)
    case (UpvoteQuestion x)
    with Pair assms show ?thesis
      by (auto simp: upvoteQuestion_def mutually_exclusive_def Let_def split: option.splits)
  next
    case (DownvoteQuestion x)
    with Pair assms show ?thesis
      by (auto simp: downvoteQuestion_def mutually_exclusive_def Let_def split: option.splits)
  next
    case (UpvoteAnswer x)
    with Pair assms show ?thesis
      by (auto simp: upvoteAnswer_def mutually_exclusive_def Let_def split: option.splits)
  next
    case (DownvoteAnswer x)
    with Pair assms show ?thesis
      by (auto simp: downvoteAnswer_def mutually_exclusive_def Let_def split: option.splits)
  next
    case (FeatureAnswer x)
    with Pair assms show ?thesis
      by (auto simp: featureAnswer_def mutually_exclusive_def Let_def split: option.splits)
  next
    case (FollowTopic x)
    with Pair assms show ?thesis
      by (auto simp: followTopic_def Let_def split: option.splits)
  next
    case (UnfollowTopic x)
    with Pair assms show ?thesis
      by (auto simp: unfollowTopic_def Let_def split: option.splits)
  next
    case (FollowUser x)
    with Pair assms show ?thesis
      by (auto simp: followUser_def Let_def split: option.splits)
  next
    case (UnfollowUser x)
    with Pair assms show ?thesis
      by (auto simp: unfollowUser_def Let_def split: option.splits)
  qed
qed

lemma serve_all_question_exclusive:
  "questions d k = Some q \<Longrightarrow> mutually_exclusive q \<Longrightarrow>
   \<exists>q'. questions (serve_all d rs) k = Some q' \<and> mutually_exclusive q'"
proof (induction rs arbitrary: d q)
  case Nil
  then show ?case by simp
next
  case (Cons r rs)
  from serve_question_exclusive [OF Cons.prems, of r]
  obtain q1 where "questions (serve d r) k = Some q1" and "mutually_exclusive q1" by blast
  from Cons.IH [OF this] show ?case by simp
qed

lemma serve_all_answer_exclusive:
  "answers d k = Some a \<Longrightarrow> mutually_exclusive a \<Longrightarrow>
   \<exists>a'. answers (serve_all d rs) k = Some a' \<and> mutually_exclusive a'"
proof (induction rs arbitrary: d a)
  case Nil
  then show ?case by simp
next
  case (Cons r rs)
  from serve_answer_exclusive [OF Cons.prems, of r]
  obtain a1 where "answers (serve d r) k = Some a1" and "mutually_exclusive a1" by blast
  from Cons.IH [OF this] show ?case by simp
qed

text \<open>
  Claim C4. A question or an answer whose vote sets are empty is still there after any
  sequence of requests (votes on any question or answer, by any callers, and also features
  and follows), and no user is in both its upvoters and its downvoters.
\<close>

theorem vote_sets_mutually_exclusive:
  "(questions d k = Some q \<and> upvotes q = [] \<and> downvotes q = [] \<longrightarrow>
      (\<exists>q'. questions (serve_all d rs) k = Some q' \<and>
            (\<forall>u. \<not> (u \<in> set (upvotes q') \<and> u \<in> set (downvotes q'))))) \<and>
   (answers d k = Some a \<and> upvotes a = [] \<and> downvotes a = [] \<longrightarrow>
      (\<exists>a'. answers (serve_all d rs) k = Some a' \<and>
            (\<forall>u. \<not> (u \<in> set (upvotes a') \<and> u \<in> set (downvotes a')))))"
proof (intro conjI impI)
  assume h: "questions d k = Some q \<and> upvotes q = [] \<and> downvotes q = []"
  then have "mutually_exclusive q" by (simp add: mutually_exclusive_def)
  with h serve_all_question_exclusive [of d k q rs]
  show "\<exists>q'. questions (serve_all d rs) k = Some q' \<and>
            (\<forall>u. \<not> (u \<in> set (upvotes q') \<and> u \<in> set (downvotes q')))"
    by (auto simp: mutually_exclusive_def)
next
  assume h: "answers d k = Some a \<and> upvotes a = [] \<and> downvotes a = []"
  then have "mutually_exclusive a" by (simp add: mutually_exclusive_def)
  with h serve_all_answer_exclusive [of d k a rs]
  show "\<exists>a'. answers (serve_all d rs) k = Some a' \<and>
            (\<forall>u. \<not> (u \<in> set (upvotes a') \<and> u \<in> set (downvotes a')))"
    by (auto simp: mutually_exclusive_def)
qed

text \<open>
  On the example store, for question 11 and answer 21 under the votes of \<open>demo_votes\<close>.
\<close>

theorem vote_sets_mutually_exclusive_witness:
  "questions demo_db 11 = Some (demo_question [] []) \<and>
   upvotes (demo_question [] []) = [] \<and> downvotes (demo_question [] []) = [] \<and>
   (\<exists>q'. questions (serve_all demo_db demo_votes) 11 = Some q' \<and>
         (\<forall>u. \<not> (u \<in> set (upvotes q') \<and> u \<in> set (downvotes q')))) \<and>
   answers demo_db 21 = Some (demo_answer 3 [] []) \<and>
   upvotes (demo_answer 3 [] []) = [] \<and> downvotes (demo_answer 3 [] []) = [] \<and>
   (\<exists>a'. answers (serve_all demo_db demo_votes) 21 = Some a' \<and>
         (\<forall>u. \<not> (u \<in> set (upvotes a') \<and> u \<in> set (downvotes a'))))"
proof -
  have q: "questions demo_db 11 = Some (demo_question [] [])"
    and a: "answers demo_db 21 = Some (demo_answer 3 [] [])"
    by (simp_all add: demo_db_def)
  have e: "upvotes (demo_question [] []) = []" "downvotes (demo_question [] []) = []"
    "upvotes (demo_answer 3 [] []) = []" "downvotes (demo_answer 3 [] []) = []"
    by (simp_all add: demo_question_def demo_answer_def)
  have c1: "\<exists>q'. questions (serve_all demo_db demo_votes) 11 = Some q' \<and>
         (\<forall>u. \<not> (u \<in> set (upvotes q') \<and> u \<in> set (downvotes q')))"
    using vote_sets_mutually_exclusive [of demo_db 11 "demo_question [] []" demo_votes]
      q e(1,2) by blast
  have c2: "\<exists>a'. answers (serve_all demo_db demo_votes) 21 = Some a' \<and>
         (\<forall>u. \<not> (u \<in> set (upvotes a') \<and> u \<in> set (downvotes a')))"
    using vote_sets_mutually_exclusive [of demo_db 21 _ demo_votes "demo_answer 3 [] []"]
      a e(3,4) by blast
  show ?thesis
    by (intro conjI q a e c1 c2)
qed

section \<open>Featuring an answer\<close>

lemma featureAnswer_success:
  assumes "featureAnswer d ru aid = (Inr r, d')"
  obtains a q where "answers d aid = Some a" and "questions d (question a) = Some q"
    and "author q = uid ru \<or> role ru = ''admin''"
    and "r = a\<lparr>isFeatured := True\<rparr>"
    and "d' = User_update
                (Question_update
                   (Answer_save
                      (Answer_updateMany d (\<lambda>k b. question b = question a \<and> k \<noteq> aid)
                         (\<lambda>b. b\<lparr>isFeatured := False\<rparr>))
                      aid (a\<lparr>isFeatured := True\<rparr>))
                   (question a) (\<lambda>q. q\<lparr>featuredAnswer := Some aid, isAnswered := True\<rparr>))
                (author a)
                (\<lambda>u. u\<lparr>reputation := reputation u + 50,
                        badges := addToSet (badges u) ''featured-answer''\<rparr>)"
  using assms
  by (auto simp: featureAnswer_def Let_def split: option.splits if_splits)

lemma featureAnswer_answers:
  assumes "featureAnswer d ru aid = (Inr r, d')" and "answers d aid = Some a"
  shows "answers d' k =
           (if k = aid then Some (a\<lparr>isFeatured := True\<rparr>)
            else map_option (\<lambda>b. if question b = question a then b\<lparr>isFeatured := False\<rparr> else b)
                   (answers d k))"
  using assms by (auto elim!: featureAnswer_success simp: map_option_case split: option.splits)

lemma featureAnswer_question:
  assumes "featureAnswer d ru aid = (Inr r, d')" and "answers d aid = Some a"
  shows "\<exists>q. questions d' (question a) = Some q \<and> featuredAnswer q = Some aid \<and> isAnswered q"
  using assms by (auto elim!: featureAnswer_success)

lemma featureAnswer_only_featured:
  assumes "featureAnswer d ru aid = (Inr r, d')" and "answers d aid = Some a"
    and "answers d' k = Some x" and "question x = question a"
  shows "isFeatured x \<longleftrightarrow> k = aid"
proof (cases "k = aid")
  case True
  with featureAnswer_answers [OF assms(1,2), of k] assms(3) show ?thesis by auto
next
  case False
  with featureAnswer_answers [OF assms(1,2), of k] assms(3)
  obtain b where b: "answers d k = Some b"
    and x: "x = (if question b = question a then b\<lparr>isFeatured := False\<rparr> else b)"
    by (cases "answers d k") auto
  from x have "question x = question b" by (simp split: if_splits)
  with assms(4) x have "x = b\<lparr>isFeatured := False\<rparr>" by simp
  then have "\<not> isFeatured x" by simp
  with False show ?thesis by simp
qed

text \<open>
  Claim C5. Two answers of one question are featured one after the other, both requests
  succeeding. Afterwards an answer of that question is featured exactly when it is the
  second one; the first one is not; and the question names the second one as its featured
  answer and is marked answered.
\<close>

theorem featured_answer_exclusive:
  assumes "answers d a1 = Some x1" and "answers d a2 = Some x2"
    and "question x1 = q" and "question x2 = q" and "a1 \<noteq> a2"
    and "featureAnswer d ru1 a1 = (Inr r1, d1)"
    and "featureAnswer d1 ru2 a2 = (Inr r2, d2)"
  shows "(\<forall>k x. answers d2 k = Some x \<and> question x = q \<longrightarrow> (isFeatured x \<longleftrightarrow> k = a2)) \<and>
         (\<exists>x. answers d2 a1 = Some x \<and> question x = q \<and> \<not> isFeatured x) \<and>
         (\<exists>x. answers d2 a2 = Some x \<and> question x = q \<and> isFeatured x) \<and>
         (\<exists>qd. questions d2 q = Some qd \<and> featuredAnswer qd = Some a2 \<and> isAnswered qd)"
proof -
  let ?y = "x2\<lparr>isFeatured := False\<rparr>"
  from assms have s1: "answers d1 a2 = Some ?y"
    by (simp add: featureAnswer_answers [of d ru1 a1 r1 d1 x1])
  from assms have s0: "answers d1 a1 = Some (x1\<lparr>isFeatured := True\<rparr>)"
    by (simp add: featureAnswer_answers [of d ru1 a1 r1 d1 x1])
  have qy: "question ?y = q" using assms(4) by simp
  note A = featureAnswer_answers [OF assms(7) s1]
  have "\<forall>k x. answers d2 k = Some x \<and> question x = q \<longrightarrow> (isFeatured x \<longleftrightarrow> k = a2)"
    using featureAnswer_only_featured [OF assms(7) s1] qy by simp
  moreover have "\<exists>x. answers d2 a1 = Some x \<and> question x = q \<and> \<not> isFeatured x"
    using qy assms(3,5) s0 by (simp add: A)
  moreover have "\<exists>x. answers d2 a2 = Some x \<and> question x = q \<and> isFeatured x"
    using qy by (simp add: A)
  moreover have "\<exists>qd. questions d2 q = Some qd \<and> featuredAnswer qd = Some a2 \<and> isAnswered qd"
    using featureAnswer_question [OF assms(7) s1] qy by simp
  ultimately show ?thesis by blast
qed

section \<open>The follow graph\<close>

lemma serve_follow_symmetric:
  assumes "follow_symmetric d"
  shows "follow_symmetric (serve d r)"
proof (cases r)
  case (Pair ru rq)
  show ?thesis
  proof (cases rq)
    case (UpvoteQuestion x)
    with Pair assms show ?thesis
      by (auto simp: follow_symmetric_def upvoteQuestion_def Let_def
               split: option.splits if_splits)
  next
    case (DownvoteQuestion x)
    with Pair assms show ?thesis
      by (auto simp: follow_symmetric_def downvoteQuestion_def Let_def
               split: option.splits if_splits)
  next
    case (UpvoteAnswer x)
    with Pair assms show ?thesis
      by (auto simp: follow_symmetric_def upvoteAnswer_def Let_def
               split: option.splits if_splits)
  next
    case (DownvoteAnswer x)
    with Pair assms show ?thesis
      by (auto simp: follow_symmetric_def downvoteAnswer_def Let_def
               split: option.splits if_splits)
  next
    case (FeatureAnswer x)
    with Pair assms show ?thesis
      by (auto simp: follow_symmetric_def featureAnswer_def Let_def
               split: option.splits if_splits)
  next
    case (FollowTopic x)
    with Pair assms show ?thesis
      by (auto simp: follow_symmetric_def followTopic_def Let_def
               split: option.splits if_splits)
  next
    case (UnfollowTopic x)
    with Pair assms show ?thesis
      by (auto simp: follow_symmetric_def unfollowTopic_def Let_def
               split: option.splits if_splits)
  next
    case (FollowUser x)
    with Pair assms show ?thesis
      by (auto simp: follow_symmetric_def followUser_def Let_def
               split: option.splits if_splits)
  next
    case (UnfollowUser x)
    with Pair assms show ?thesis
      by (auto simp: follow_symmetric_def unfollowUser_def Let_def
               split: option.splits if_splits)
  qed
qed

lemma serve_topic_follow_symmetric:
  assumes "topic_follow_symmetric d"
  shows "topic_follow_symmetric (serve d r)"
proof (cases r)
  case (Pair ru rq)
  show ?thesis
  proof (cases rq)
    case (UpvoteQuestion x)
    with Pair assms show ?thesis
      by (auto simp: topic_follow_symmetric_def upvoteQuestion_def Let_def
               split: option.splits if_splits)
  next
    case (DownvoteQuestion x)
    with Pair assms show ?thesis
      by (auto simp: topic_follow_symmetric_def downvoteQuestion_def Let_def
               split: option.splits if_splits)
  next
    case (UpvoteAnswer x)
    with Pair assms show ?thesis
      by (auto simp: topic_follow_symmetric_def upvoteAnswer_def Let_def
               split: option.splits if_splits)
  next
    case (DownvoteAnswer x)
    with Pair assms show ?thesis
      by (auto simp: topic_follow_symmetric_def downvoteAnswer_def Let_def
               split: option.splits if_splits)
  next
    case (FeatureAnswer x)
    with Pair assms show ?thesis
      by (auto simp: topic_follow_symmetric_def featureAnswer_def Let_def
               split: option.splits if_splits)
  next
    case (FollowTopic x)
    with Pair assms show ?thesis
      by (auto simp: topic_follow_symmetric_def followTopic_def Let_def
               split: option.splits if_splits)
  next
    case (UnfollowTopic x)
    with Pair assms show ?thesis
      by (auto simp: topic_follow_symmetric_def unfollowTopic_def Let_def
               split: option.splits if_splits)
  next
    case (FollowUser x)
    with Pair assms show ?thesis
      by (auto simp: topic_follow_symmetric_def followUser_def Let_def
               split: option.splits if_splits)
  next
    case (UnfollowUser x)
    with Pair assms show ?thesis
      by (auto simp: topic_follow_symmetric_def unfollowUser_def Let_def
               split: option.splits if_splits)
  qed
qed

lemma serve_all_follow_symmetric:
  "follow_symmetric d \<Longrightarrow> follow_symmetric (serve_all d rs)"
  by (induction rs arbitrary: d) (simp_all add: serve_follow_symmetric)

lemma serve_all_topic_follow_symmetric:
  "topic_follow_symmetric d \<Longrightarrow> topic_follow_symmetric (serve_all d rs)"
  by (induction rs arbitrary: d) (simp_all add: serve_topic_follow_symmetric)

text \<open>
  Claim C7. From a store in which, for all users A and B, A's following list holds B
  exactly when B's followers list holds A, and a user's followingTopics holds a topic
  exactly when the topic's followers list holds the user, every sequence of requests
  (follows and unfollows of users and topics, and votes and features as well) leads to a
  store with the same two properties.
\<close>

theorem follow_graph_stays_symmetric:
  assumes "follow_symmetric d" and "topic_follow_symmetric d"
  shows "follow_symmetric (serve_all d rs) \<and> topic_follow_symmetric (serve_all d rs)"
  using assms by (simp add: serve_all_follow_symmetric serve_all_topic_follow_symmetric)

text \<open>
  On the example store nobody follows anything, so both relations are symmetric there.
  After \<open>demo_follows\<close> user 3 follows user 2 and user 1 follows neither user 2 nor topic
  30; the theorem then gives the mirrored side: user 3 is among the followers of user 2,
  and user 1 is neither among them nor among the followers of topic 30.
\<close>

theorem follow_graph_stays_symmetric_witness:
  "(\<exists>ua ub. users (serve_all demo_db demo_follows) 3 = Some ua \<and>
            users (serve_all demo_db demo_follows) 2 = Some ub \<and>
            2 \<in> set (following ua) \<and> 3 \<in> set (followers ub)) \<and>
   (\<exists>ua ub. users (serve_all demo_db demo_follows) 1 = Some ua \<and>
            users (serve_all demo_db demo_follows) 2 = Some ub \<and>
            2 \<notin> set (following ua) \<and> 1 \<notin> set (followers ub)) \<and>
   (\<exists>ua tt. users (serve_all demo_db demo_follows) 1 = Some ua \<and>
            topics (serve_all demo_db demo_follows) 30 = Some tt \<and>
            30 \<notin> set (followingTopics ua) \<and> 1 \<notin> set (topic_followers tt))"
proof -
  let ?D = "serve_all demo_db demo_follows"
  have s: "follow_symmetric demo_db"
    by (simp add: follow_symmetric_def demo_db_def demo_user_def split: if_splits)
  have t: "topic_follow_symmetric demo_db"
    by (simp add: topic_follow_symmetric_def demo_db_def demo_user_def split: if_splits)
  from follow_graph_stays_symmetric [OF s t, of demo_follows]
  have fs: "follow_symmetric ?D" and ts: "topic_follow_symmetric ?D" by simp_all
  note ev = demo_follows_def demo_db_def demo_user_def demo_req_def followUser_def
    unfollowUser_def followTopic_def unfollowTopic_def Let_def
  obtain u3 where u3: "users ?D 3 = Some u3" "2 \<in> set (following u3)"
    by (simp add: ev)
  obtain u1 where u1: "users ?D 1 = Some u1" "2 \<notin> set (following u1)"
    "30 \<notin> set (followingTopics u1)"
    by (simp add: ev)
  obtain u2 where u2: "users ?D 2 = Some u2"
    by (simp add: ev)
  obtain tt where tt: "topics ?D 30 = Some tt"
    by (simp add: ev)
  from fs u3 u2 have a: "3 \<in> set (followers u2)"
    unfolding follow_symmetric_def by blast
  from fs u1(1,2) u2 have b: "1 \<notin> set (followers u2)"
    unfolding follow_symmetric_def by blast
  from ts u1(1,3) tt have c: "1 \<notin> set (topic_followers tt)"
    unfolding topic_follow_symmetric_def by blast
  from u3 u2 a u1 b tt c show ?thesis by blast
qed

section \<open>Socket events\<close>

text \<open>
  Claim C8, as the code has it. An event a socket publishes to a room (an added answer, a
  vote on an answer, a featured answer) is delivered to the sockets that have joined the
  room at that moment, the publishing socket excluded, for each of the four kinds of
  event; the rooms are left as they were.
\<close>

theorem publish_excludes_sender:
  assumes "published_room ev = Some room"
  shows "receivers (snd (on_event rs socket ev)) = rs room - {socket} \<and>
         fst (on_event rs socket ev) = rs"
  using assms by (cases ev) (auto simp: receivers_def socket_to_emit_def image_image)

theorem publish_excludes_sender_witness:
  "published_room (answerUpvoted 10 20) = Some 10 \<and>
   receivers (snd (on_event demo_rooms 1 (answerUpvoted 10 20))) = demo_rooms 10 - {1} \<and>
   fst (on_event demo_rooms 1 (answerUpvoted 10 20)) = demo_rooms \<and>
   published_room (newAnswer 10 ''text'') = Some 10 \<and>
   receivers (snd (on_event demo_rooms 1 (newAnswer 10 ''text''))) = demo_rooms 10 - {1}"
  using publish_excludes_sender [of "answerUpvoted 10 20" 10 demo_rooms 1]
    publish_excludes_sender [of "newAnswer 10 ''text''" 10 demo_rooms 1]
  by simp

text \<open>
  Claim C8 as stated has a vote on an answer delivered to the publishing socket too. In
  the example socket 1 is in room 10 and publishes a vote there; the event goes to socket
  2 and not to socket 1. The same holds for a featured answer.
\<close>

theorem vote_event_to_sender_counterexample:
  "1 \<in> demo_rooms 10 \<and>
   snd (on_event demo_rooms 1 (answerUpvoted 10 20)) = {(2, emit_answerUpdated 20 ''upvote'')} \<and>
   1 \<notin> receivers (snd (on_event demo_rooms 1 (answerUpvoted 10 20))) \<and>
   1 \<notin> receivers (snd (on_event demo_rooms 1 (answerFeatured 10 20)))"
  by (auto simp: demo_rooms_def receivers_def socket_to_emit_def)

section \<open>Reputation and counters after a save of an answer\<close>

lemma featureAnswer_users:
  assumes "featureAnswer d ru aid = (Inr r, d')"
  shows "users d' k =
           (if k = author r
            then map_option
                   (\<lambda>u. u\<lparr>answersCount := answersCount u + 1,
                           reputation := reputation u + 5 + 50,
                           badges := addToSet (badges u) ''featured-answer''\<rparr>)
                   (users d k)
            else users d k)"
proof -
  from assms obtain a q where r: "r = a\<lparr>isFeatured := True\<rparr>"
    and d': "d' = User_update
                (Question_update
                   (Answer_save
                      (Answer_updateMany d (\<lambda>k b. question b = question a \<and> k \<noteq> aid)
                         (\<lambda>b. b\<lparr>isFeatured := False\<rparr>))
                      aid (a\<lparr>isFeatured := True\<rparr>))
                   (question a) (\<lambda>q. q\<lparr>featuredAnswer := Some aid, isAnswered := True\<rparr>))
                (author a)
                (\<lambda>u. u\<lparr>reputation := reputation u + 50,
                        badges := addToSet (badges u) ''featured-answer''\<rparr>)"
    by (rule featureAnswer_success)
  show ?thesis
    by (cases "users d k") (auto simp: d' r)
qed

lemma featureAnswer_reputation:
  assumes "featureAnswer d ru aid = (Inr r, d')"
  shows "reputation_of d' k =
           (if k = author r then map_option (\<lambda>n. n + 55) (reputation_of d k)
            else reputation_of d k)"
  by (cases "users d k") (auto simp: reputation_of_def featureAnswer_users [OF assms])

lemma featureAnswer_badges:
  assumes "featureAnswer d ru aid = (Inr r, d')"
  shows "badges_of d' k =
           (if k = author r
            then map_option (\<lambda>bs. addToSet bs ''featured-answer'') (badges_of d k)
            else badges_of d k)"
  by (cases "users d k") (auto simp: badges_of_def featureAnswer_users [OF assms])

lemma featureAnswer_questions:
  assumes "featureAnswer d ru aid = (Inr r, d')"
  shows "questions d' k =
           (if k = question r
            then map_option
                   (\<lambda>q. q\<lparr>question_answersCount := question_answersCount q + 1,
                           featuredAnswer := Some aid, isAnswered := True\<rparr>)
                   (questions d k)
            else questions d k)"
proof -
  from assms obtain a q where r: "r = a\<lparr>isFeatured := True\<rparr>"
    and d': "d' = User_update
                (Question_update
                   (Answer_save
                      (Answer_updateMany d (\<lambda>k b. question b = question a \<and> k \<noteq> aid)
                         (\<lambda>b. b\<lparr>isFeatured := False\<rparr>))
                      aid (a\<lparr>isFeatured := True\<rparr>))
                   (question a) (\<lambda>q. q\<lparr>featuredAnswer := Some aid, isAnswered := True\<rparr>))
                (author a)
                (\<lambda>u. u\<lparr>reputation := reputation u + 50,
                        badges := addToSet (badges u) ''featured-answer''\<rparr>)"
    by (rule featureAnswer_success)
  show ?thesis
    by (cases "questions d k") (auto simp: d' r)
qed

lemma featureAnswer_counts:
  assumes "featureAnswer d ru aid = (Inr r, d')"
  shows "counts_bumped d r d'"
proof -
  have "question_answersCount_of d' (question r) =
          map_option (\<lambda>n. n + 1) (question_answersCount_of d (question r))"
    by (cases "questions d (question r)")
       (simp_all add: question_answersCount_of_def featureAnswer_questions [OF assms])
  moreover have "user_answersCount_of d' (author r) =
          map_option (\<lambda>n. n + 1) (user_answersCount_of d (author r))"
    by (cases "users d (author r)")
       (simp_all add: user_answersCount_of_def featureAnswer_users [OF assms])
  ultimately show ?thesis by (simp add: counts_bumped_def)
qed

lemma featureAnswer_again:
  assumes "featureAnswer d ru aid = (Inr r, d')"
    and "questions d' (question r) = Some q" and "author q = uid ru2 \<or> role ru2 = ''admin''"
  shows "\<exists>d2. featureAnswer d' ru2 aid = (Inr r, d2)"
proof -
  from assms(1) obtain a where a: "answers d aid = Some a" and r: "r = a\<lparr>isFeatured := True\<rparr>"
    by (auto elim!: featureAnswer_success)
  from featureAnswer_answers [OF assms(1) a, of aid] r
  have "answers d' aid = Some r" by simp
  with assms(2,3) r show ?thesis
    by (simp add: featureAnswer_def Let_def)
qed

lemma upvoteAnswer_counts:
  assumes "upvoteAnswer d ru aid = (Inr a, d')"
  shows "counts_bumped d a d'"
  using assms
  by (cases "answers d aid")
     (auto simp: upvoteAnswer_def Let_def counts_bumped_def question_answersCount_of_def
                 user_answersCount_of_def option.map_comp comp_def
           split: if_splits)

lemma downvoteAnswer_counts:
  assumes "downvoteAnswer d ru aid = (Inr a, d')"
  shows "counts_bumped d a d'"
  using assms
  by (cases "answers d aid")
     (auto simp: downvoteAnswer_def Let_def counts_bumped_def question_answersCount_of_def
                 user_answersCount_of_def option.map_comp comp_def
           split: if_splits)

lemma createAnswer_counts:
  assumes "createAnswer d ru new_id body = (Inr a, d')"
  shows "counts_bumped d a d'"
  using assms
  by (cases "questions d (question body)")
     (auto simp: createAnswer_def Let_def counts_bumped_def question_answersCount_of_def
                 user_answersCount_of_def option.map_comp comp_def
           split: if_splits)

text \<open>
  Claim C10. Each request that saves an answer document and succeeds (an upvote, a downvote,
  a feature, a creation) leaves the \<open>answersCount\<close> of the answer's question one higher and
  the \<open>answersCount\<close> of the answer's author one higher than before the request.
\<close>

theorem answer_save_bumps_counts:
  "(upvoteAnswer d ru aid = (Inr a, d') \<longrightarrow> counts_bumped d a d') \<and>
   (downvoteAnswer d ru aid = (Inr a, d') \<longrightarrow> counts_bumped d a d') \<and>
   (featureAnswer d ru aid = (Inr a, d') \<longrightarrow> counts_bumped d a d') \<and>
   (createAnswer d ru new_id body = (Inr a, d') \<longrightarrow> counts_bumped d a d')"
  by (simp add: upvoteAnswer_counts downvoteAnswer_counts featureAnswer_counts
        createAnswer_counts)

section \<open>The example store\<close>

lemma demo_db_lookups:
  "answers demo_db 20 = Some (demo_answer 2 [1] [3])"
  "answers demo_db 21 = Some (demo_answer 3 [] [])"
  "questions demo_db 10 = Some (demo_question [2] [3])"
  "reputation_of demo_db 2 = Some 0"
  "reputation_of demo_db 3 = Some 0"
  "badges_of demo_db 2 = Some []"
  "question_answersCount_of demo_db 10 = Some 2"
  "user_answersCount_of demo_db 2 = Some 0"
  by (simp_all add: demo_db_def demo_user_def demo_question_def reputation_of_def
        badges_of_def question_answersCount_of_def user_answersCount_of_def)

lemma demo_docs:
  "question (demo_answer w ups downs) = 10"
  "author (demo_answer w ups downs) = w"
  "upvotes (demo_answer w ups downs) = ups"
  "downvotes (demo_answer w ups downs) = downs"
  "author (demo_question ups downs) = 1"
  "uid (demo_req k) = k"
  by (simp_all add: demo_answer_def demo_question_def demo_req_def)

lemma demo_feature_20:
  "featureAnswer demo_db (demo_req 1) 20 =
     (Inr ((demo_answer 2 [1] [3])\<lparr>isFeatured := True\<rparr>), demo_featured_20)"
  by (simp add: prod_eq_iff demo_featured_20_def featureAnswer_def demo_db_lookups demo_docs
        Let_def)

lemma demo_featured_20_lookups:
  "answers demo_featured_20 20 = Some ((demo_answer 2 [1] [3])\<lparr>isFeatured := True\<rparr>)"
  "answers demo_featured_20 21 = Some ((demo_answer 3 [] [])\<lparr>isFeatured := False\<rparr>)"
  "\<exists>q. questions demo_featured_20 10 = Some q \<and> author q = 1"
  by (simp_all add: featureAnswer_answers [OF demo_feature_20 demo_db_lookups(1)]
        featureAnswer_questions [OF demo_feature_20] demo_db_lookups demo_docs)

lemma demo_feature_21:
  "featureAnswer demo_featured_20 (demo_req 1) 21 =
     (Inr ((demo_answer 3 [] [])\<lparr>isFeatured := True\<rparr>), demo_featured_21)"
  using demo_featured_20_lookups(3)
  by (auto simp: prod_eq_iff demo_featured_21_def featureAnswer_def demo_featured_20_lookups
        demo_docs Let_def)

lemma demo_feature_20_again:
  "featureAnswer demo_featured_20 (demo_req 1) 20 =
     (Inr ((demo_answer 2 [1] [3])\<lparr>isFeatured := True\<rparr>), demo_featured_20_again)"
  using demo_featured_20_lookups(3)
  by (auto simp: prod_eq_iff demo_featured_20_again_def featureAnswer_def
        demo_featured_20_lookups demo_docs Let_def)

lemma demo_upvote_21:
  "upvoteAnswer demo_db (demo_req 2) 21 =
     (Inr (demo_answer 3 [2] []), snd (upvoteAnswer demo_db (demo_req 2) 21))"
  by (simp add: prod_eq_iff upvoteAnswer_def demo_db_lookups demo_docs Let_def)
     (simp add: demo_answer_def)

lemma demo_downvote_21:
  "downvoteAnswer demo_db (demo_req 2) 21 =
     (Inr (demo_answer 3 [] [2]), snd (downvoteAnswer demo_db (demo_req 2) 21))"
  by (simp add: prod_eq_iff downvoteAnswer_def demo_db_lookups demo_docs Let_def)
     (simp add: demo_answer_def)

lemma demo_create_22:
  "createAnswer demo_db (demo_req 1) 22 (demo_answer 9 [] []) =
     (Inr (demo_answer 1 [] []),
      snd (createAnswer demo_db (demo_req 1) 22 (demo_answer 9 [] [])))"
  by (simp add: prod_eq_iff createAnswer_def demo_db_def demo_req_def demo_answer_def Let_def)

text \<open>
  Claim C5 on the example store: user 1, who asked question 10, features answer 20 and then
  answer 21.
\<close>

theorem featured_answer_exclusive_witness:
  "answers demo_db 20 = Some (demo_answer 2 [1] [3]) \<and>
   answers demo_db 21 = Some (demo_answer 3 [] []) \<and>
   question (demo_answer 2 [1] [3]) = 10 \<and> question (demo_answer 3 [] []) = 10 \<and>
   (20 :: answer_id) \<noteq> 21 \<and>
   featureAnswer demo_db (demo_req 1) 20 =
     (Inr ((demo_answer 2 [1] [3])\<lparr>isFeatured := True\<rparr>), demo_featured_20) \<and>
   featureAnswer demo_featured_20 (demo_req 1) 21 =
     (Inr ((demo_answer 3 [] [])\<lparr>isFeatured := True\<rparr>), demo_featured_21) \<and>
   (\<exists>x. answers demo_featured_21 20 = Some x \<and> question x = 10 \<and> \<not> isFeatured x) \<and>
   (\<exists>x. answers demo_featured_21 21 = Some x \<and> question x = 10 \<and> isFeatured x) \<and>
   (\<exists>qd. questions demo_featured_21 10 = Some qd \<and> featuredAnswer qd = Some 21 \<and>
      isAnswered qd)"
proof -
  have n: "(20 :: answer_id) \<noteq> 21" by simp
  note c = featured_answer_exclusive [OF demo_db_lookups(1,2) demo_docs(1) demo_docs(1) n
             demo_feature_20 demo_feature_21]
  show ?thesis
    by (intro conjI demo_db_lookups(1,2) demo_docs(1) n demo_feature_20 demo_feature_21
          c [THEN conjunct2, THEN conjunct1]
          c [THEN conjunct2, THEN conjunct2, THEN conjunct1]
          c [THEN conjunct2, THEN conjunct2, THEN conjunct2])
qed

text \<open>
  Claim C9. After a successful feature of an answer, the answer is stored as featured; a
  second feature of the same answer by any caller who is the question's author or an admin
  succeeds as well, and the reputation of the answer's author, which the first request
  raised by 55 (50 from the handler and 5 from the save hook), is raised by 55 once more.
\<close>

theorem refeature_credits_again:
  assumes "featureAnswer d ru aid = (Inr a, d1)"
    and "questions d1 (question a) = Some q"
    and "author q = uid ru2 \<or> role ru2 = ''admin''"
  shows "answers d1 aid = Some a \<and> isFeatured a \<and>
         reputation_of d1 (author a) = map_option (\<lambda>n. n + 55) (reputation_of d (author a)) \<and>
         (\<exists>d2. featureAnswer d1 ru2 aid = (Inr a, d2) \<and>
               reputation_of d2 (author a) =
                 map_option (\<lambda>n. n + 55) (reputation_of d1 (author a)))"
proof -
  from assms(1) obtain a0 where a0: "answers d aid = Some a0"
    and a: "a = a0\<lparr>isFeatured := True\<rparr>"
    by (auto elim!: featureAnswer_success)
  have stored: "answers d1 aid = Some a"
    using featureAnswer_answers [OF assms(1) a0, of aid] a by simp
  have feat: "isFeatured a" using a by simp
  have first: "reputation_of d1 (author a) =
      map_option (\<lambda>n. n + 55) (reputation_of d (author a))"
    by (simp add: featureAnswer_reputation [OF assms(1)])
  from featureAnswer_again [OF assms] obtain d2
    where second: "featureAnswer d1 ru2 aid = (Inr a, d2)" by blast
  have "reputation_of d2 (author a) = map_option (\<lambda>n. n + 55) (reputation_of d1 (author a))"
    by (simp add: featureAnswer_reputation [OF second])
  with stored feat first second show ?thesis by blast
qed

text \<open>
  On the example store user 1 features answer 20, written by user 2, twice: the reputation
  of user 2 goes from 0 to 55 and then to 110.
\<close>

theorem refeature_credits_again_witness:
  "featureAnswer demo_db (demo_req 1) 20 =
     (Inr ((demo_answer 2 [1] [3])\<lparr>isFeatured := True\<rparr>), demo_featured_20) \<and>
   (\<exists>q. questions demo_featured_20 10 = Some q \<and> author q = uid (demo_req 1)) \<and>
   featureAnswer demo_featured_20 (demo_req 1) 20 =
     (Inr ((demo_answer 2 [1] [3])\<lparr>isFeatured := True\<rparr>), demo_featured_20_again) \<and>
   reputation_of demo_db 2 = Some 0 \<and>
   reputation_of demo_featured_20 2 = Some 55 \<and>
   reputation_of demo_featured_20_again 2 = Some 110"
proof -
  let ?a = "(demo_answer 2 [1] [3])\<lparr>isFeatured := True\<rparr>"
  from demo_featured_20_lookups(3) obtain q
    where q: "questions demo_featured_20 10 = Some q" and w: "author q = 1" by blast
  have q': "questions demo_featured_20 (question ?a) = Some q" using q by (simp add: demo_docs)
  have w': "author q = uid (demo_req 1) \<or> role (demo_req 1) = ''admin''"
    using w by (simp add: demo_docs)
  note c = refeature_credits_again [OF demo_feature_20 q' w']
  from c have r1: "reputation_of demo_featured_20 2 = Some 55"
    by (simp add: demo_docs demo_db_lookups)
  from c obtain d2 where s: "featureAnswer demo_featured_20 (demo_req 1) 20 = (Inr ?a, d2)"
    and r: "reputation_of d2 (author ?a) =
              map_option (\<lambda>n. n + 55) (reputation_of demo_featured_20 (author ?a))"
    by blast
  from s have "d2 = demo_featured_20_again" by (simp add: demo_featured_20_again_def)
  with r r1 have r2: "reputation_of demo_featured_20_again 2 = Some 110"
    by (simp add: demo_docs)
  have e: "\<exists>q. questions demo_featured_20 10 = Some q \<and> author q = uid (demo_req 1)"
    using q w by (simp add: demo_docs)
  show ?thesis
    by (intro conjI demo_feature_20 e demo_feature_20_again demo_db_lookups(4) r1 r2)
qed

text \<open>
  On the example store: user 2 upvotes, or downvotes, answer 21 of user 3; user 1 features
  answer 20 of user 2; user 1 posts a new answer 22. Each answer belongs to question 10,
  whose \<open>answersCount\<close> is 2 before; after the feature it is 3, and the \<open>answersCount\<close> of
  user 2 has gone from 0 to 1.
\<close>

theorem answer_save_bumps_counts_witness:
  "upvoteAnswer demo_db (demo_req 2) 21 =
     (Inr (demo_answer 3 [2] []), snd (upvoteAnswer demo_db (demo_req 2) 21)) \<and>
   counts_bumped demo_db (demo_answer 3 [2] []) (snd (upvoteAnswer demo_db (demo_req 2) 21)) \<and>
   downvoteAnswer demo_db (demo_req 2) 21 =
     (Inr (demo_answer 3 [] [2]), snd (downvoteAnswer demo_db (demo_req 2) 21)) \<and>
   counts_bumped demo_db (demo_answer 3 [] [2])
     (snd (downvoteAnswer demo_db (demo_req 2) 21)) \<and>
   featureAnswer demo_db (demo_req 1) 20 =
     (Inr ((demo_answer 2 [1] [3])\<lparr>isFeatured := True\<rparr>), demo_featured_20) \<and>
   counts_bumped demo_db ((demo_answer 2 [1] [3])\<lparr>isFeatured := True\<rparr>) demo_featured_20 \<and>
   createAnswer demo_db (demo_req 1) 22 (demo_answer 9 [] []) =
     (Inr (demo_answer 1 [] []),
      snd (createAnswer demo_db (demo_req 1) 22 (demo_answer 9 [] []))) \<and>
   counts_bumped demo_db (demo_answer 1 [] [])
     (snd (createAnswer demo_db (demo_req 1) 22 (demo_answer 9 [] []))) \<and>
   question_answersCount_of demo_db 10 = Some 2 \<and>
   question_answersCount_of demo_featured_20 10 = Some 3 \<and>
   user_answersCount_of demo_db 2 = Some 0 \<and>
   user_answersCount_of demo_featured_20 2 = Some 1"
proof -
  note c1 = answer_save_bumps_counts
              [THEN conjunct1, rule_format, OF demo_upvote_21]
  note c2 = answer_save_bumps_counts
              [THEN conjunct2, THEN conjunct1, rule_format, OF demo_downvote_21]
  note c3 = answer_save_bumps_counts
              [THEN conjunct2, THEN conjunct2, THEN conjunct1, rule_format, OF demo_feature_20]
  note c4 = answer_save_bumps_counts
              [THEN conjunct2, THEN conjunct2, THEN conjunct2, rule_format, OF demo_create_22]
  from c3 have n1: "question_answersCount_of demo_featured_20 10 = Some 3"
    and n2: "user_answersCount_of demo_featured_20 2 = Some 1"
    by (simp_all add: counts_bumped_def demo_docs demo_db_lookups)
  show ?thesis
    by (intro conjI demo_upvote_21 c1 demo_downvote_21 c2 demo_feature_20 c3 demo_create_22 c4
          demo_db_lookups(7,8) n1 n2)
qed

section \<open>What the save hook adds to a vote and to a feature\<close>

lemma upvoteAnswer_reputation:
  assumes "upvoteAnswer d ru aid = (Inr a, d')"
  shows "reputation_of d' (author a) = map_option (\<lambda>n. n + 5 + 15) (reputation_of d (author a))"
  using assms
  by (cases "answers d aid")
     (auto simp: upvoteAnswer_def Let_def reputation_of_def option.map_comp comp_def
           split: if_splits)

lemma downvoteAnswer_reputation:
  assumes "downvoteAnswer d ru aid = (Inr a, d')"
  shows "reputation_of d' (author a) = map_option (\<lambda>n. n + 5 - 5) (reputation_of d (author a))"
  using assms
  by (cases "answers d aid")
     (auto simp: downvoteAnswer_def Let_def reputation_of_def option.map_comp comp_def
           split: if_splits)

text \<open>
  Claim C2 on the example store. User 2 is in neither vote set of answer 21, written by
  user 3, whose reputation is 0. After the upvote of user 2 the reputation of user 3 is 20
  (15 from the handler and 5 from the save hook), not 15; after a downvote instead it is
  0 (-5 from the handler and 5 from the save hook), not -5.
\<close>

theorem answer_vote_reputation_with_hook:
  "answers demo_db 21 = Some (demo_answer 3 [] []) \<and>
   uid (demo_req 2) \<notin> set (upvotes (demo_answer 3 [] [])) \<and>
   uid (demo_req 2) \<notin> set (downvotes (demo_answer 3 [] [])) \<and>
   author (demo_answer 3 [] []) = 3 \<and>
   reputation_of demo_db 3 = Some 0 \<and>
   fst (upvoteAnswer demo_db (demo_req 2) 21) = Inr (demo_answer 3 [2] []) \<and>
   reputation_of (snd (upvoteAnswer demo_db (demo_req 2) 21)) 3 = Some 20 \<and>
   fst (downvoteAnswer demo_db (demo_req 2) 21) = Inr (demo_answer 3 [] [2]) \<and>
   reputation_of (snd (downvoteAnswer demo_db (demo_req 2) 21)) 3 = Some 0"
proof -
  have u: "reputation_of (snd (upvoteAnswer demo_db (demo_req 2) 21)) 3 = Some 20"
    using upvoteAnswer_reputation [OF demo_upvote_21]
    by (simp add: demo_docs demo_db_lookups)
  have w: "reputation_of (snd (downvoteAnswer demo_db (demo_req 2) 21)) 3 = Some 0"
    using downvoteAnswer_reputation [OF demo_downvote_21]
    by (simp add: demo_docs demo_db_lookups)
  have fu: "fst (upvoteAnswer demo_db (demo_req 2) 21) = Inr (demo_answer 3 [2] [])"
    using demo_upvote_21 by (simp add: prod_eq_iff)
  have fd: "fst (downvoteAnswer demo_db (demo_req 2) 21) = Inr (demo_answer 3 [] [2])"
    using demo_downvote_21 by (simp add: prod_eq_iff)
  have m: "uid (demo_req 2) \<notin> set (upvotes (demo_answer 3 [] []))"
    "uid (demo_req 2) \<notin> set (downvotes (demo_answer 3 [] []))"
    by (simp_all add: demo_docs)
  show ?thesis
    by (intro conjI demo_db_lookups(2) m demo_docs(2) demo_db_lookups(5) fu u fd w)
qed

text \<open>
  Claim C6 on the example store. User 1 features answer 20, written by user 2 with
  reputation 0 and no badge: afterwards user 2 has reputation 55 (50 from the handler and 5
  from the save hook), not 50, and the badge. User 1 then features answer 21, written by
  user 3: user 2 keeps the 55 and user 3 has 55. Had user 1 featured answer 20 again
  instead, user 2 would hold the badge once, not twice.
\<close>

theorem feature_credit_with_hook:
  "featureAnswer demo_db (demo_req 1) 20 =
     (Inr ((demo_answer 2 [1] [3])\<lparr>isFeatured := True\<rparr>), demo_featured_20) \<and>
   reputation_of demo_db 2 = Some 0 \<and>
   badges_of demo_db 2 = Some [] \<and>
   reputation_of demo_featured_20 2 = Some 55 \<and>
   badges_of demo_featured_20 2 = Some [''featured-answer''] \<and>
   featureAnswer demo_featured_20 (demo_req 1) 21 =
     (Inr ((demo_answer 3 [] [])\<lparr>isFeatured := True\<rparr>), demo_featured_21) \<and>
   reputation_of demo_featured_21 2 = Some 55 \<and>
   reputation_of demo_featured_21 3 = Some 55 \<and>
   featureAnswer demo_featured_20 (demo_req 1) 20 =
     (Inr ((demo_answer 2 [1] [3])\<lparr>isFeatured := True\<rparr>), demo_featured_20_again) \<and>
   badges_of demo_featured_20_again 2 = Some [''featured-answer'']"
proof -
  have r1: "reputation_of demo_featured_20 2 = Some 55"
    by (simp add: featureAnswer_reputation [OF demo_feature_20] demo_docs demo_db_lookups)
  have r0: "reputation_of demo_featured_20 3 = Some 0"
    by (simp add: featureAnswer_reputation [OF demo_feature_20] demo_docs demo_db_lookups)
  have b1: "badges_of demo_featured_20 2 = Some [''featured-answer'']"
    by (simp add: featureAnswer_badges [OF demo_feature_20] demo_docs demo_db_lookups
          addToSet_def)
  have r2: "reputation_of demo_featured_21 2 = Some 55"
    by (simp add: featureAnswer_reputation [OF demo_feature_21] demo_docs r1)
  have r3: "reputation_of demo_featured_21 3 = Some 55"
    by (simp add: featureAnswer_reputation [OF demo_feature_21] demo_docs r0)
  have b2: "badges_of demo_featured_20_again 2 = Some [''featured-answer'']"
    by (simp add: featureAnswer_badges [OF demo_feature_20_again] demo_docs b1 addToSet_def)
  show ?thesis
    by (intro conjI demo_feature_20 demo_db_lookups(4,6) r1 b1 demo_feature_21 r2 r3
          demo_feature_20_again b2)
qed

end
